theory Spec2Isabelle
  imports Main
begin

section \<open>The board in memory\<close>

text \<open>
  \<^verbatim>\<open>#define N 5\<close> and \<^verbatim>\<open>char board[N][N]\<close>. Every function of
  \<^verbatim>\<open>threeMusketeers.c\<close> receives the board as a pointer to its first row, and
  \<^verbatim>\<open>board[i][k]\<close> is the char at offset \<open>N * i + k\<close> from that pointer (C stores the
  rows one after the other). A \<open>board\<close> is therefore the memory seen through that
  pointer, a function from char offsets to chars: the grid is the 25 offsets \<open>0..24\<close>,
  the other offsets are whatever lies next to the array. Row and column indices are C
  \<^verbatim>\<open>int\<close>s computed from one char by a subtraction, and moved by one step at most:
  they stay between \<open>-256\<close> and \<open>256\<close>, so \<open>int\<close> models them without wrap-around.
\<close>

abbreviation N :: int where "N \<equiv> 5"

type_synonym board = "int \<Rightarrow> char"

definition cell :: "board \<Rightarrow> int \<Rightarrow> int \<Rightarrow> char" where
  "cell board i k = board (N * i + k)"

definition store :: "board \<Rightarrow> int \<Rightarrow> int \<Rightarrow> char \<Rightarrow> board" where
  "store board i k v = board (N * i + k := v)"

definition in_grid :: "int \<Rightarrow> int \<Rightarrow> bool" where
  "in_grid i k \<longleftrightarrow> 0 \<le> i \<and> i < N \<and> 0 \<le> k \<and> k < N"

text \<open>The 25 cells of a board, row by row: what two boards must share to be the same board.\<close>

definition cells :: "board \<Rightarrow> char list" where
  "cells board = map board [0..N * N - 1]"

text \<open>The grid positions, and the number of cells that hold a given symbol.\<close>

definition positions :: "(int \<times> int) list" where
  "positions = concat (map (\<lambda>i. map (\<lambda>k. (i, k)) [0..N - 1]) [0..N - 1])"

definition holds :: "board \<Rightarrow> char \<Rightarrow> int \<times> int \<Rightarrow> bool" where
  "holds board v p \<longleftrightarrow> cell board (fst p) (snd p) = v"

definition count_of :: "board \<Rightarrow> char \<Rightarrow> nat" where
  "count_of board v = length (filter (holds board v) positions)"

section \<open>What a call does besides returning\<close>

text \<open>
  The validators print a message when they reject and read the board through computed
  indices. Both are recorded, in program order: \<open>Deref i k\<close> is an evaluation of
  \<^verbatim>\<open>board[i][k]\<close>, \<open>Print m\<close> a \<^verbatim>\<open>printf\<close> of the message \<open>m\<close>.
\<close>

datatype message =
    Out_of_board        \<comment> \<open>"This move gets out of the board or is a wrong move."\<close>
  | Invalid_direction   \<comment> \<open>"Invalid direction. Use L/l, R/r, U/u, or D/d."\<close>
  | No_musketeers       \<comment> \<open>"No Musketeers spotted!."\<close>
  | No_enemies          \<comment> \<open>"No enemies spotted!"\<close>
  | Invalid_format      \<comment> \<open>"Invalid input format. Use i,j=value (e.g., A,5=L)."\<close>
  | Game_interrupted    \<comment> \<open>"Game interrupted. Exiting..."\<close>
  | Failed_to_save      \<comment> \<open>"Failed to save the game state."\<close>
  | Board_displayed     \<comment> \<open>the output of \<^verbatim>\<open>display_board\<close>\<close>

datatype event = Deref int int | Print message | Saved string

fun out_of_range :: "event \<Rightarrow> bool" where
  "out_of_range (Deref i k) = (\<not> in_grid i k)"
| "out_of_range _ = False"

section \<open>Move validation\<close>

text \<open>
  \<^verbatim>\<open>isValidMove\<close>: the source position is on the grid and the direction is one of the
  eight letters. The board parameter is not used by the C function either.
\<close>

definition isValidMove :: "int \<Rightarrow> int \<Rightarrow> char \<Rightarrow> board \<Rightarrow> bool \<times> event list" where
  "isValidMove row col direction board =
     (if row \<ge> 0 \<and> row < N \<and> col \<ge> 0 \<and> col < N then
        if direction = CHR ''L'' \<or> direction = CHR ''l'' \<or> direction = CHR ''R'' \<or> direction = CHR ''r'' \<or>
           direction = CHR ''U'' \<or> direction = CHR ''u'' \<or> direction = CHR ''D'' \<or> direction = CHR ''d''
        then (True, [])
        else (False, [Print Invalid_direction])
      else (False, [Print Out_of_board]))"

text \<open>
  One condition of a validator has the shape
  \<^verbatim>\<open>(board[row][col] == p) && (board[row'][col'] == t) && rest\<close>,
  where \<open>rest\<close> compares the direction letter and, for the Musketeers, the source index
  with the edge. C evaluates \<^verbatim>\<open>&&\<close> from the left and stops at the first false
  operand: the source cell is always read, the destination cell is read whenever the
  source cell holds \<open>p\<close>, before \<open>rest\<close> is looked at.
\<close>

definition condition :: "board \<Rightarrow> int \<Rightarrow> int \<Rightarrow> char \<Rightarrow> int \<Rightarrow> int \<Rightarrow> char \<Rightarrow> bool \<Rightarrow> bool \<times> event list" where
  "condition board row col p row' col' t rest =
     (if cell board row col = p
      then (cell board row' col' = t \<and> rest, [Deref row col, Deref row' col'])
      else (False, [Deref row col]))"

definition isValidMusketeerMove :: "int \<Rightarrow> int \<Rightarrow> char \<Rightarrow> board \<Rightarrow> bool \<times> event list" where
  "isValidMusketeerMove row col direction board =
     (case isValidMove row col direction board of
        (False, ev) \<Rightarrow> (False, ev @ [Print No_musketeers])
      | (True, ev) \<Rightarrow>
          (let (u, eu) = condition board row col CHR ''M'' (row - 1) col CHR ''o''
                           ((direction = CHR ''U'' \<or> direction = CHR ''u'') \<and> row > 0);
               (d, ed) = condition board row col CHR ''M'' (row + 1) col CHR ''o''
                           ((direction = CHR ''D'' \<or> direction = CHR ''d'') \<and> row < N - 1);
               (l, el) = condition board row col CHR ''M'' row (col - 1) CHR ''o''
                           ((direction = CHR ''L'' \<or> direction = CHR ''l'') \<and> col > 0);
               (r, er) = condition board row col CHR ''M'' row (col + 1) CHR ''o''
                           ((direction = CHR ''R'' \<or> direction = CHR ''r'') \<and> col < N - 1);
               cnt = (of_bool u + of_bool d + of_bool l + of_bool r :: int)
           in if cnt > 0 then (True, ev @ eu @ ed @ el @ er)
              else (False, ev @ eu @ ed @ el @ er @ [Print No_musketeers])))"

definition isValidEnemyMove :: "int \<Rightarrow> int \<Rightarrow> char \<Rightarrow> board \<Rightarrow> bool \<times> event list" where
  "isValidEnemyMove row col direction board =
     (case isValidMove row col direction board of
        (False, ev) \<Rightarrow> (False, ev @ [Print No_enemies])
      | (True, ev) \<Rightarrow>
          (let (u, eu) = condition board row col CHR ''o'' (row - 1) col CHR ''.''
                           (direction = CHR ''U'' \<or> direction = CHR ''u'');
               (d, ed) = condition board row col CHR ''o'' (row + 1) col CHR ''.''
                           (direction = CHR ''D'' \<or> direction = CHR ''d'');
               (l, el) = condition board row col CHR ''o'' row (col - 1) CHR ''.''
                           (direction = CHR ''L'' \<or> direction = CHR ''l'');
               (r, er) = condition board row col CHR ''o'' row (col + 1) CHR ''.''
                           (direction = CHR ''R'' \<or> direction = CHR ''r'');
               cnt = (of_bool u + of_bool d + of_bool l + of_bool r :: int)
           in if cnt > 0 then (True, ev @ eu @ ed @ el @ er)
              else (False, ev @ eu @ ed @ el @ er @ [Print No_enemies])))"

section \<open>Applying a move\<close>

text \<open>
  The if-chain of \<^verbatim>\<open>makeMove\<close> that computes \<^verbatim>\<open>newRow\<close> and \<^verbatim>\<open>newCol\<close>. For a
  direction that is none of the eight letters the C variables stay uninitialised: \<open>None\<close>.
\<close>

definition destination :: "int \<Rightarrow> int \<Rightarrow> char \<Rightarrow> (int \<times> int) option" where
  "destination row col direction =
     (if direction = CHR ''l'' \<or> direction = CHR ''L'' then Some (row, col - 1)
      else if direction = CHR ''r'' \<or> direction = CHR ''R'' then Some (row, col + 1)
      else if direction = CHR ''u'' \<or> direction = CHR ''U'' then Some (row - 1, col)
      else if direction = CHR ''d'' \<or> direction = CHR ''D'' then Some (row + 1, col)
      else None)"

definition makeMove :: "int \<Rightarrow> int \<Rightarrow> char \<Rightarrow> board \<Rightarrow> bool \<Rightarrow> board option" where
  "makeMove row col direction board mTurn =
     (case destination row col direction of
        None \<Rightarrow> None
      | Some (newRow, newCol) \<Rightarrow>
          Some (store (store board row col CHR ''.'') newRow newCol
                  (if mTurn then CHR ''M'' else CHR ''o'')))"

section \<open>Win detection\<close>

text \<open>
  \<^verbatim>\<open>winMusketeers\<close>: the body of the two nested loops adds one to \<^verbatim>\<open>cnt\<close> for each
  neighbour of a Musketeer that holds \<open>'o'\<close>; each neighbour's index is compared with the
  edge before the cell is read.
\<close>

definition count_threats :: "board \<Rightarrow> int \<Rightarrow> int \<Rightarrow> int \<Rightarrow> int" where
  "count_threats board i k cnt =
     (if cell board i k = CHR ''M'' then
        (let cnt = (if k - 1 \<ge> 0 \<and> cell board i (k - 1) = CHR ''o'' then cnt + 1 else cnt);
             cnt = (if k + 1 < N \<and> cell board i (k + 1) = CHR ''o'' then cnt + 1 else cnt);
             cnt = (if i - 1 \<ge> 0 \<and> cell board (i - 1) k = CHR ''o'' then cnt + 1 else cnt);
             cnt = (if i + 1 < N \<and> cell board (i + 1) k = CHR ''o'' then cnt + 1 else cnt)
         in cnt)
      else cnt)"

definition winMusketeers :: "board \<Rightarrow> bool" where
  "winMusketeers board =
     (let cnt = fold (\<lambda>i. fold (\<lambda>k. count_threats board i k) [0..N - 1]) [0..N - 1] 0
      in if cnt > 0 then False else True)"

text \<open>
  \<^verbatim>\<open>winEnemies\<close>: \<^verbatim>\<open>mCount\<close> of a row and of a column, and the two outer loops, each of
  which returns 1 at the first index whose count is 3.
\<close>

definition mCount_row :: "board \<Rightarrow> int \<Rightarrow> int" where
  "mCount_row board i =
     fold (\<lambda>k mCount. if cell board i k = CHR ''M'' then mCount + 1 else mCount) [0..N - 1] 0"

definition mCount_col :: "board \<Rightarrow> int \<Rightarrow> int" where
  "mCount_col board k =
     fold (\<lambda>i mCount. if cell board i k = CHR ''M'' then mCount + 1 else mCount) [0..N - 1] 0"

fun same_row_loop :: "board \<Rightarrow> int list \<Rightarrow> bool" where
  "same_row_loop board [] = False"
| "same_row_loop board (i # rest) =
     (if mCount_row board i = 3 then True else same_row_loop board rest)"

fun same_col_loop :: "board \<Rightarrow> int list \<Rightarrow> bool" where
  "same_col_loop board [] = False"
| "same_col_loop board (k # rest) =
     (if mCount_col board k = 3 then True else same_col_loop board rest)"

definition winEnemies :: "board \<Rightarrow> bool" where
  "winEnemies board =
     (if same_row_loop board [0..N - 1] then True
      else if same_col_loop board [0..N - 1] then True
      else False)"

definition winGame :: "board \<Rightarrow> bool" where
  "winGame board = (if winMusketeers board \<or> winEnemies board then True else False)"

section \<open>Saving and loading\<close>

text \<open>
  \<^verbatim>\<open>writeBoard\<close>: \<open>opened\<close> says whether \<^verbatim>\<open>fopen\<close> gave a file. The loops put each
  cell into the file, a space after each cell but the last of its row, a newline after
  each row. The result is the return value and the chars written. The file written is
  the one named \<^verbatim>\<open>out-\<close> followed by the name given; file names are not modelled.
\<close>

definition write_cell :: "board \<Rightarrow> int \<Rightarrow> int \<Rightarrow> string \<Rightarrow> string" where
  "write_cell board i k file =
     (let file = file @ [cell board i k]
      in if k < N - 1 then file @ [CHR '' ''] else file)"

definition write_row :: "board \<Rightarrow> int \<Rightarrow> string \<Rightarrow> string" where
  "write_row board i file = fold (write_cell board i) [0..N - 1] file @ [CHR 0x0A]"

definition writeBoard :: "board \<Rightarrow> bool \<Rightarrow> bool \<times> string" where
  "writeBoard board opened =
     (if \<not> opened then (False, [])
      else (True, fold (write_row board) [0..N - 1] []))"

text \<open>
  \<^verbatim>\<open>readBoard\<close>: \<open>file\<close> is \<open>None\<close> when \<^verbatim>\<open>fopen\<close> fails and the chars of the file
  otherwise. The loops run over \<open>i\<close> and \<open>k\<close>; each pass of the inner body takes one char
  with \<^verbatim>\<open>fgetc\<close> (the end of the list is \<^verbatim>\<open>EOF\<close>), stores it in the cell, or, for a
  newline or a space, steps \<open>k\<close> back so that the same cell is tried again. The result is
  the return value and the board as the loops leave it.
\<close>

function read_loop :: "int \<Rightarrow> int \<Rightarrow> board \<Rightarrow> string \<Rightarrow> bool \<times> board" where
  "read_loop i k board file =
     (if \<not> i < N then (True, board)
      else if \<not> k < N then read_loop (i + 1) 0 board file
      else (case file of
              [] \<Rightarrow> (False, board)
            | ch # file' \<Rightarrow>
                if ch \<noteq> CHR ''o'' \<and> ch \<noteq> CHR ''M'' \<and> ch \<noteq> CHR 0x0A \<and> ch \<noteq> CHR '' '' \<and> ch \<noteq> CHR ''.''
                then (False, board)
                else if ch \<noteq> CHR 0x0A \<and> ch \<noteq> CHR '' ''
                then read_loop i (k + 1) (store board i k ch) file'
                else read_loop i (k - 1 + 1) board file'))"
  by pat_completeness auto
termination
  by (relation "measures [\<lambda>(i, k, board, file). length file, \<lambda>(i, k, board, file). nat (N - i)]") auto

declare read_loop.simps [simp del]

definition readBoard :: "board \<Rightarrow> string option \<Rightarrow> bool \<times> board" where
  "readBoard board file =
     (case file of
        None \<Rightarrow> (False, board)
      | Some chars \<Rightarrow> read_loop 0 0 board chars)"

section \<open>The turn loop\<close>

text \<open>
  \<^verbatim>\<open>gameInterrupt\<close> saves the board; what reaches the file is the event \<open>Saved\<close>.
\<close>

definition gameInterrupt :: "board \<Rightarrow> bool \<Rightarrow> event list" where
  "gameInterrupt board opened =
     (case writeBoard board opened of
        (True, file) \<Rightarrow> [Saved file]
      | (False, file) \<Rightarrow> [Print Failed_to_save])"

text \<open>
  The two \<^verbatim>\<open>sscanf\<close> calls of \<^verbatim>\<open>play\<close>, on the C string in \<^verbatim>\<open>playerMove\<close>. A space
  in a format skips any white space of the input, \<^verbatim>\<open>%c\<close> takes the next char whatever
  it is, and any other format char must be the next char of the input. The result is
  \<^verbatim>\<open>sscanf\<close>'s return value (the number of conversions done, \<open>-1\<close> for \<^verbatim>\<open>EOF\<close> when the
  input ends before the first one) and the char stored in \<^verbatim>\<open>direction\<close>, if any. What
  the first two conversions store is overwritten before it is read.
\<close>

definition isspace :: "char \<Rightarrow> bool" where
  "isspace c \<longleftrightarrow> c = CHR '' '' \<or> c = CHR 0x09 \<or> c = CHR 0x0A \<or> c = CHR 0x0B \<or> c = CHR 0x0C \<or> c = CHR 0x0D"

definition sscanf_tight :: "string \<Rightarrow> int \<times> char option" where
  \<comment> \<open>\<^verbatim>\<open>sscanf(playerMove, " %c,%c=%c", ...)\<close>\<close>
  "sscanf_tight playerMove =
     (case dropWhile isspace playerMove of
        [] \<Rightarrow> (- 1, None)
      | r # s1 \<Rightarrow>
     (case s1 of
        [] \<Rightarrow> (1, None)
      | comma # s2 \<Rightarrow> if comma \<noteq> CHR '','' then (1, None) else
     (case s2 of
        [] \<Rightarrow> (1, None)
      | c # s3 \<Rightarrow>
     (case s3 of
        [] \<Rightarrow> (2, None)
      | eq # s4 \<Rightarrow> if eq \<noteq> CHR ''='' then (2, None) else
     (case s4 of
        [] \<Rightarrow> (2, None)
      | d # s5 \<Rightarrow> (3, Some d))))))"

definition sscanf_spaced :: "string \<Rightarrow> int \<times> char option" where
  \<comment> \<open>\<^verbatim>\<open>sscanf(playerMove, " %c,%c = %c", ...)\<close>\<close>
  "sscanf_spaced playerMove =
     (case dropWhile isspace playerMove of
        [] \<Rightarrow> (- 1, None)
      | r # s1 \<Rightarrow>
     (case s1 of
        [] \<Rightarrow> (1, None)
      | comma # s2 \<Rightarrow> if comma \<noteq> CHR '','' then (1, None) else
     (case s2 of
        [] \<Rightarrow> (1, None)
      | c # s3 \<Rightarrow>
     (case dropWhile isspace s3 of
        [] \<Rightarrow> (2, None)
      | eq # s4 \<Rightarrow> if eq \<noteq> CHR ''='' then (2, None) else
     (case dropWhile isspace s4 of
        [] \<Rightarrow> (2, None)
      | d # s5 \<Rightarrow> (3, Some d))))))"

text \<open>
  \<^verbatim>\<open>tolower\<close> on the value of a char. A char is taken as its byte value \<open>0..255\<close>; where
  \<^verbatim>\<open>char\<close> is signed, a byte above 127 has a negative value instead, which is off the
  grid as well.
\<close>

definition tolower :: "char \<Rightarrow> int" where
  "tolower c = (if of_char CHR ''A'' \<le> (of_char c :: int) \<and> (of_char c :: int) \<le> of_char CHR ''Z''
                then of_char c + 32 else of_char c)"

text \<open>
  The parsing step of \<^verbatim>\<open>play\<close>: the condition on the two \<^verbatim>\<open>sscanf\<close> calls (the second is
  only made when the first does not return 3), then \<^verbatim>\<open>row\<close> and \<^verbatim>\<open>col\<close> from the first
  and the third char of \<^verbatim>\<open>playerMove\<close>. \<open>None\<close> is the branch that prints
  "Invalid input format". A return value of 3 needs five chars, so the last case of the
  inner \<open>case\<close> is never taken.
\<close>

definition parse_move :: "string \<Rightarrow> (int \<times> int \<times> char) option" where
  "parse_move playerMove =
     (let direction =
            (if fst (sscanf_tight playerMove) = 3 then snd (sscanf_tight playerMove)
             else if fst (sscanf_spaced playerMove) = 3 then snd (sscanf_spaced playerMove)
             else None)
      in case direction of
           None \<Rightarrow> None
         | Some direction \<Rightarrow>
             (case playerMove of
                c0 # c1 # c2 # rest \<Rightarrow>
                  Some (tolower c0 - of_char CHR ''a'', of_char c2 - of_char CHR ''1'', direction)
              | _ \<Rightarrow> None))"

text \<open>
  One pass of the body of \<^verbatim>\<open>while (!winGame(board))\<close> in \<^verbatim>\<open>play\<close>, on the line that
  \<^verbatim>\<open>fgets\<close> left in \<^verbatim>\<open>playerMove\<close> (the chars before its terminating zero; \<^verbatim>\<open>fgets\<close>
  is given \<^verbatim>\<open>sizeof(playerMove)\<close>, the size of a pointer, so these are at most seven
  where a pointer has eight bytes). The result is \<open>None\<close> if \<^verbatim>\<open>makeMove\<close> is reached
  with an uninitialised destination, and otherwise: whether the loop goes on (no
  \<^verbatim>\<open>break\<close>), the board, \<^verbatim>\<open>musketeersTurn\<close>, and what the pass printed, read and saved.
\<close>

definition play_turn :: "board \<Rightarrow> bool \<Rightarrow> bool \<Rightarrow> string \<Rightarrow> (bool \<times> board \<times> bool \<times> event list) option" where
  "play_turn board musketeersTurn opened playerMove =
     (if playerMove = ''0,0=E'' @ [CHR 0x0A] \<or> playerMove = ''0,0=e'' @ [CHR 0x0A]
      then Some (False, board, musketeersTurn, Print Game_interrupted # gameInterrupt board opened)
      else case parse_move playerMove of
        Some (row, col, direction) \<Rightarrow>
          if musketeersTurn then
            (case isValidMusketeerMove row col direction board of
               (True, ev) \<Rightarrow>
                 (case makeMove row col direction board musketeersTurn of
                    None \<Rightarrow> None
                  | Some board' \<Rightarrow> Some (True, board', \<not> musketeersTurn, ev @ [Print Board_displayed]))
             | (False, ev) \<Rightarrow> Some (True, board, musketeersTurn, ev))
          else
            (case isValidEnemyMove row col direction board of
               (True, ev) \<Rightarrow>
                 (case makeMove row col direction board musketeersTurn of
                    None \<Rightarrow> None
                  | Some board' \<Rightarrow> Some (True, board', \<not> musketeersTurn, ev @ [Print Board_displayed]))
             | (False, ev) \<Rightarrow> Some (True, board, musketeersTurn, ev))
      | None \<Rightarrow> Some (True, board, musketeersTurn, [Print Invalid_format]))"

section \<open>Notions used to state the properties\<close>

text \<open>
  Two positions are orthogonally adjacent when they are one step apart in a row or in a
  column. \<open>adjacencies\<close> lists the pairs of a Musketeer cell and an adjacent Enemy cell
  of the grid.
\<close>

definition adjacent :: "int \<times> int \<Rightarrow> int \<times> int \<Rightarrow> bool" where
  "adjacent p q \<longleftrightarrow> \<bar>fst p - fst q\<bar> + \<bar>snd p - snd q\<bar> = 1"

definition adjacencies :: "board \<Rightarrow> ((int \<times> int) \<times> (int \<times> int)) list" where
  "adjacencies board =
     filter (\<lambda>(p, q). adjacent p q \<and> holds board CHR ''M'' p \<and> holds board CHR ''o'' q)
       (List.product positions positions)"

text \<open>The positions of the Musketeers on the grid.\<close>

definition musketeers :: "board \<Rightarrow> (int \<times> int) list" where
  "musketeers board = filter (holds board CHR ''M'') positions"

text \<open>The validator of the side whose turn it is, as \<^verbatim>\<open>play\<close> picks it.\<close>

definition validator :: "bool \<Rightarrow> int \<Rightarrow> int \<Rightarrow> char \<Rightarrow> board \<Rightarrow> bool \<times> event list" where
  "validator musketeersTurn =
     (if musketeersTurn then isValidMusketeerMove else isValidEnemyMove)"

text \<open>
  The chars of a board file: the three cell symbols, and the two chars that
  \<^verbatim>\<open>readBoard\<close> skips. \<open>symbols_read\<close> is the sequence of cell symbols that come
  before the end of the text and before the first char of another kind.
\<close>

definition symbol :: "char \<Rightarrow> bool" where
  "symbol c \<longleftrightarrow> c = CHR ''o'' \<or> c = CHR ''M'' \<or> c = CHR ''.''"

definition blank :: "char \<Rightarrow> bool" where
  "blank c \<longleftrightarrow> c = CHR 0x0A \<or> c = CHR '' ''"

definition symbols_read :: "string \<Rightarrow> string" where
  "symbols_read chars = filter symbol (takeWhile (\<lambda>c. symbol c \<or> blank c) chars)"

text \<open>Auxiliary notions of the proofs.\<close>

definition threats :: "board \<Rightarrow> int \<Rightarrow> int \<Rightarrow> int" where
  "threats board i k = count_threats board i k 0"

definition offsets :: "int list" where
  "offsets = [0..N * N - 1]"

definition needed :: "int \<Rightarrow> int \<Rightarrow> nat" where
  "needed i k = (if i < N then nat ((N - i) * N - k) else 0)"

section \<open>Concrete boards and inputs\<close>

text \<open>A grid of empty cells in a memory of \<open>'.'\<close>, and boards made from it by placing pieces.\<close>

definition empty_board :: board where
  "empty_board = (\<lambda>_. CHR ''.'')"

definition board_a1_a2 :: board where
  \<comment> \<open>a Musketeer at A1, an enemy at A2\<close>
  "board_a1_a2 = store (store empty_board 0 0 CHR ''M'') 0 1 CHR ''o''"

definition board_play :: board where
  \<comment> \<open>a game in progress: Musketeers at C3, D2, E5, enemies at A1, B1, C4\<close>
  "board_play =
     store (store (store (store (store (store empty_board
       2 2 CHR ''M'') 3 1 CHR ''M'') 4 4 CHR ''M'') 0 0 CHR ''o'') 1 0 CHR ''o'') 2 3 CHR ''o''"

definition board_aligned :: board where
  \<comment> \<open>Musketeers at A1, A2, A3\<close>
  "board_aligned = store (store (store empty_board 0 0 CHR ''M'') 0 1 CHR ''M'') 0 2 CHR ''M''"

definition board_aligned_enemy :: board where
  \<comment> \<open>the same with an enemy at E5\<close>
  "board_aligned_enemy = store board_aligned 4 4 CHR ''o''"

definition newline :: char where
  "newline = CHR 0x0A"

definition line_x9z :: string where
  "line_x9z = ''x,9=z'' @ [newline]"

definition line_a1r :: string where
  "line_a1r = ''a,1=r'' @ [newline]"

definition line_b1l :: string where
  "line_b1l = ''b,1=l'' @ [newline]"

definition empty_text :: string where
  \<comment> \<open>a board file of 25 empty cells\<close>
  "empty_text = concat (map (\<lambda>i. ''. . . . .'' @ [newline]) [0..N - 1])"

section \<open>The grid\<close>

lemma indices: "[0..4] = [0, 1, 2, 3, 4]"
  by code_simp

lemma set_positions: "set positions = {0..4} \<times> {0..4}"
  by (auto simp add: positions_def)

lemma distinct_positions: "distinct positions"
  by code_simp

lemma offsets_positions: "map (\<lambda>p. N * fst p + snd p) positions = offsets"
  by code_simp

lemma distinct_offsets: "distinct offsets"
  by (simp add: offsets_def)

lemma set_offsets: "set offsets = {0..24}"
  by (simp add: offsets_def)

lemma offset_in_grid: "in_grid i k \<Longrightarrow> N * i + k \<in> set offsets"
  by (simp add: in_grid_def set_offsets)

lemma offset_inj:
  assumes "in_grid i k" and "in_grid i' k'" and "N * i' + k' = N * i + k"
  shows "i' = i \<and> k' = k"
proof -
  have "\<not> i' < i" and "\<not> i < i'"
    using assms unfolding in_grid_def by linarith+
  then have "i' = i"
    by simp
  with assms(3) show ?thesis
    by simp
qed

lemma cell_store:
  assumes "in_grid i k" and "in_grid i' k'"
  shows "cell (store board i k w) i' k' = (if i' = i \<and> k' = k then w else cell board i' k')"
  using offset_inj [OF assms] by (auto simp add: cell_def store_def)

section \<open>Properties of the validators\<close>

lemma isValidMove_fst:
  "fst (isValidMove row col direction board) \<longleftrightarrow>
     in_grid row col \<and> destination row col direction \<noteq> None"
  by (auto simp add: isValidMove_def in_grid_def destination_def)

lemma isValidMusketeerMove_fst:
  "fst (isValidMusketeerMove row col direction board) \<longleftrightarrow>
     in_grid row col \<and> cell board row col = CHR ''M'' \<and>
     (\<exists>row' col'. destination row col direction = Some (row', col') \<and> in_grid row' col' \<and>
        cell board row' col' = CHR ''o'')"
  by (auto simp add: isValidMusketeerMove_def isValidMove_def condition_def in_grid_def
      destination_def Let_def)

lemma isValidEnemyMove_fst:
  "fst (isValidEnemyMove row col direction board) \<longleftrightarrow>
     in_grid row col \<and> cell board row col = CHR ''o'' \<and>
     (\<exists>row' col'. destination row col direction = Some (row', col') \<and>
        cell board row' col' = CHR ''.'')"
  by (auto simp add: isValidEnemyMove_def isValidMove_def condition_def in_grid_def
      destination_def Let_def)

text \<open>
  C1. For a source position on the grid and one of the eight direction letters whose
  one-step destination is on the grid too, \<^verbatim>\<open>isValidMusketeerMove\<close> accepts exactly
  when the source cell holds \<open>'M'\<close> and the destination cell holds \<open>'o'\<close>, and
  \<^verbatim>\<open>isValidEnemyMove\<close> accepts exactly when the source cell holds \<open>'o'\<close> and the
  destination cell holds \<open>'.'\<close>.
\<close>

theorem validators_accept_iff_occupancy:
  assumes "in_grid row col"
    and "destination row col direction = Some (row', col')"
    and "in_grid row' col'"
  shows "(fst (isValidMusketeerMove row col direction board) \<longleftrightarrow>
            cell board row col = CHR ''M'' \<and> cell board row' col' = CHR ''o'') \<and>
         (fst (isValidEnemyMove row col direction board) \<longleftrightarrow>
            cell board row col = CHR ''o'' \<and> cell board row' col' = CHR ''.'')"
  using assms by (simp add: isValidMusketeerMove_fst isValidEnemyMove_fst)

theorem validators_accept_iff_occupancy_witness:
  "in_grid 0 0 \<and> destination 0 0 CHR ''r'' = Some (0, 1) \<and> in_grid 0 1 \<and>
   fst (isValidMusketeerMove 0 0 CHR ''r'' board_a1_a2) \<and>
   \<not> fst (isValidEnemyMove 0 0 CHR ''r'' board_a1_a2)"
proof -
  have g: "in_grid 0 0" "in_grid 0 1"
    by (simp_all add: in_grid_def)
  have d: "destination 0 0 CHR ''r'' = Some (0, 1)"
    by (simp add: destination_def)
  show ?thesis
    using validators_accept_iff_occupancy [OF g(1) d g(2), of board_a1_a2] g d
    by (simp add: board_a1_a2_def empty_board_def store_def cell_def)
qed

text \<open>
  The Musketeers' validator rejects every move whose destination is off the grid: its
  comparison of the source index with the edge is part of each condition.
\<close>

lemma musketeer_off_grid_rejected:
  assumes "destination row col direction = Some (row', col')" and "\<not> in_grid row' col'"
  shows "\<not> fst (isValidMusketeerMove row col direction board)"
  using assms by (auto simp add: isValidMusketeerMove_fst)

text \<open>
  That comparison is the last operand of the condition, after the destination cell: a
  Musketeer on the top row makes the validator evaluate \<^verbatim>\<open>board[-1][col]\<close>, whatever
  the direction asked for.
\<close>

lemma musketeer_top_row_read:
  assumes "in_grid 0 col" and "destination 0 col direction \<noteq> None"
    and "cell board 0 col = CHR ''M''"
  shows "Deref (- 1) col \<in> set (snd (isValidMusketeerMove 0 col direction board))"
  using assms
  by (auto simp add: isValidMusketeerMove_def isValidMove_def condition_def in_grid_def
      destination_def Let_def split: if_splits)

text \<open>
  C2. The claim: a move from a grid position to a destination off the grid is rejected
  by both validators, and no index off the grid is dereferenced on the way. The code:
  \<^verbatim>\<open>isValidEnemyMove\<close> has no comparison with the edge. For the enemy at B1 and the
  direction \<open>'l'\<close> the destination is \<open>(1, -1)\<close>; the validator evaluates
  \<^verbatim>\<open>board[1][-1]\<close>, which is the char of A5, finds \<open>'.'\<close> and accepts, and the pass
  of the turn loop on the line \<open>b,1=l\<close> moves the enemy from B1 to A5.
  \<^verbatim>\<open>isValidMusketeerMove\<close> rejects the move \<open>'u'\<close> of the Musketeer at A1, after it
  has evaluated \<^verbatim>\<open>board[-1][0]\<close> and \<^verbatim>\<open>board[0][-1]\<close>.
\<close>

theorem off_grid_destination_dereferenced:
  "in_grid 1 0 \<and> destination 1 0 CHR ''l'' = Some (1, - 1) \<and> \<not> in_grid 1 (- 1) \<and>
   isValidEnemyMove 1 0 CHR ''l'' board_play =
     (True, [Deref 1 0, Deref 0 0, Deref 1 0, Deref 2 0, Deref 1 0, Deref 1 (- 1), Deref 1 0, Deref 1 1]) \<and>
   list_ex out_of_range (snd (isValidEnemyMove 1 0 CHR ''l'' board_play)) \<and>
   cells board_play = ''o....o......Mo..M.......M'' \<and>
   map_option (\<lambda>(continue, board', musketeersTurn, ev). (continue, cells board', musketeersTurn))
     (play_turn board_play False True line_b1l) = Some (True, ''o...o.......Mo..M.......M'', True) \<and>
   in_grid 0 0 \<and> destination 0 0 CHR ''u'' = Some (- 1, 0) \<and> \<not> in_grid (- 1) 0 \<and>
   isValidMusketeerMove 0 0 CHR ''u'' board_a1_a2 =
     (False, [Deref 0 0, Deref (- 1) 0, Deref 0 0, Deref 1 0, Deref 0 0, Deref 0 (- 1), Deref 0 0, Deref 0 1,
              Print No_musketeers]) \<and>
   list_ex out_of_range (snd (isValidMusketeerMove 0 0 CHR ''u'' board_a1_a2))"
proof -
  have e: "isValidEnemyMove 1 0 CHR ''l'' board_play =
     (True, [Deref 1 0, Deref 0 0, Deref 1 0, Deref 2 0, Deref 1 0, Deref 1 (- 1), Deref 1 0, Deref 1 1])"
    by (simp add: isValidEnemyMove_def isValidMove_def condition_def board_play_def
        empty_board_def store_def cell_def)
  have p: "parse_move line_b1l = Some (1, 0, CHR ''l'')"
    by (simp add: line_b1l_def newline_def parse_move_def sscanf_tight_def isspace_def tolower_def)
  have l: "line_b1l \<noteq> ''0,0=E'' @ [CHR 0x0A]" "line_b1l \<noteq> ''0,0=e'' @ [CHR 0x0A]"
    by (simp_all add: line_b1l_def)
  have t: "map_option (\<lambda>(continue, board', musketeersTurn, ev). (continue, cells board', musketeersTurn))
     (play_turn board_play False True line_b1l) = Some (True, ''o...o.......Mo..M.......M'', True)"
    by (simp add: play_turn_def l p e makeMove_def destination_def del: append.simps)
       (simp add: cells_def upto.simps board_play_def empty_board_def store_def)
  have c: "cells board_play = ''o....o......Mo..M.......M''"
    by (simp add: cells_def upto.simps board_play_def empty_board_def store_def)
  have m: "isValidMusketeerMove 0 0 CHR ''u'' board_a1_a2 =
     (False, [Deref 0 0, Deref (- 1) 0, Deref 0 0, Deref 1 0, Deref 0 0, Deref 0 (- 1), Deref 0 0, Deref 0 1,
              Print No_musketeers])"
    by (simp add: isValidMusketeerMove_def isValidMove_def condition_def board_a1_a2_def
        empty_board_def store_def cell_def)
  show ?thesis
    unfolding e m t c by (simp add: destination_def in_grid_def)
qed

section \<open>Musketeers' win\<close>

lemma count_threats_add: "count_threats board i k cnt = cnt + threats board i k"
  by (simp add: count_threats_def threats_def Let_def)

lemma threats_nonneg: "0 \<le> threats board i k"
  by (simp add: count_threats_def threats_def Let_def)

lemma threats_pos_iff:
  "0 < threats board i k \<longleftrightarrow>
     cell board i k = CHR ''M'' \<and>
     (1 \<le> k \<and> cell board i (k - 1) = CHR ''o'' \<or> k + 1 < N \<and> cell board i (k + 1) = CHR ''o'' \<or>
      1 \<le> i \<and> cell board (i - 1) k = CHR ''o'' \<or> i + 1 < N \<and> cell board (i + 1) k = CHR ''o'')"
  by (auto simp add: count_threats_def threats_def Let_def)

lemma fold_inner:
  "fold (\<lambda>k. count_threats board i k) ks cnt = cnt + sum_list (map (threats board i) ks)"
  by (induction ks arbitrary: cnt) (simp_all add: count_threats_add)

lemma fold_outer:
  "fold (\<lambda>i. fold (\<lambda>k. count_threats board i k) ks) rows cnt =
     cnt + sum_list (map (\<lambda>i. sum_list (map (threats board i) ks)) rows)"
  by (induction rows arbitrary: cnt) (simp_all add: fold_inner)

lemma sum_list_pos_iff:
  fixes xs :: "int list"
  assumes "\<forall>x\<in>set xs. 0 \<le> x"
  shows "0 < sum_list xs \<longleftrightarrow> (\<exists>x\<in>set xs. 0 < x)"
  using assms by (induction xs) (auto simp add: sum_list_nonneg add_pos_nonneg add_nonneg_pos)

lemma winMusketeers_iff_no_threat:
  "winMusketeers board \<longleftrightarrow> (\<forall>i\<in>{0..4}. \<forall>k\<in>{0..4}. \<not> 0 < threats board i k)"
proof -
  have inner: "0 < sum_list (map (threats board i) [0..4]) \<longleftrightarrow> (\<exists>k\<in>{0..4}. 0 < threats board i k)" for i
    by (subst sum_list_pos_iff) (auto simp add: threats_nonneg)
  have "0 < sum_list (map (\<lambda>i. sum_list (map (threats board i) [0..4])) [0..4]) \<longleftrightarrow>
        (\<exists>i\<in>{0..4}. \<exists>k\<in>{0..4}. 0 < threats board i k)"
    by (subst sum_list_pos_iff) (auto simp add: inner threats_nonneg intro!: sum_list_nonneg)
  then show ?thesis
    by (simp add: winMusketeers_def fold_outer Let_def)
qed

lemma threat_iff_adjacent_enemy:
  "(\<exists>i\<in>{0..4}. \<exists>k\<in>{0..4}. 0 < threats board i k) \<longleftrightarrow>
   (\<exists>p\<in>set positions. holds board CHR ''M'' p \<and>
      (\<exists>q\<in>set positions. adjacent p q \<and> holds board CHR ''o'' q))" (is "?L \<longleftrightarrow> ?R")
proof
  assume ?L
  then obtain i k where ik: "0 \<le> i" "i \<le> 4" "0 \<le> k" "k \<le> 4" "0 < threats board i k"
    by auto
  from ik(5) have m: "cell board i k = CHR ''M''"
    and "1 \<le> k \<and> cell board i (k - 1) = CHR ''o'' \<or> k + 1 < N \<and> cell board i (k + 1) = CHR ''o'' \<or>
      1 \<le> i \<and> cell board (i - 1) k = CHR ''o'' \<or> i + 1 < N \<and> cell board (i + 1) k = CHR ''o''"
    by (simp_all add: threats_pos_iff)
  then consider "1 \<le> k" "cell board i (k - 1) = CHR ''o''" | "k + 1 < N" "cell board i (k + 1) = CHR ''o''"
    | "1 \<le> i" "cell board (i - 1) k = CHR ''o''" | "i + 1 < N" "cell board (i + 1) k = CHR ''o''"
    by blast
  then obtain q where "q \<in> set positions" "adjacent (i, k) q" "holds board CHR ''o'' q"
  proof cases
    case 1
    with ik that [of "(i, k - 1)"] show ?thesis by (simp add: set_positions adjacent_def holds_def)
  next
    case 2
    with ik that [of "(i, k + 1)"] show ?thesis by (simp add: set_positions adjacent_def holds_def)
  next
    case 3
    with ik that [of "(i - 1, k)"] show ?thesis by (simp add: set_positions adjacent_def holds_def)
  next
    case 4
    with ik that [of "(i + 1, k)"] show ?thesis by (simp add: set_positions adjacent_def holds_def)
  qed
  moreover from ik m have "(i, k) \<in> set positions" "holds board CHR ''M'' (i, k)"
    by (simp_all add: set_positions holds_def)
  ultimately show ?R
    by blast
next
  assume ?R
  then obtain i k i' k' where g: "0 \<le> i" "i \<le> 4" "0 \<le> k" "k \<le> 4" "0 \<le> i'" "i' \<le> 4" "0 \<le> k'" "k' \<le> 4"
    and m: "cell board i k = CHR ''M''" and o: "cell board i' k' = CHR ''o''"
    and a: "\<bar>i - i'\<bar> + \<bar>k - k'\<bar> = 1"
    by (auto simp add: set_positions holds_def adjacent_def)
  from a have "i' = i \<and> k' = k - 1 \<or> i' = i \<and> k' = k + 1 \<or> i' = i - 1 \<and> k' = k \<or> i' = i + 1 \<and> k' = k"
    by arith
  then consider "i' = i" "k' = k - 1" | "i' = i" "k' = k + 1" | "i' = i - 1" "k' = k" | "i' = i + 1" "k' = k"
    by blast
  then have "0 < threats board i k"
    using g m o by cases (simp_all add: threats_pos_iff)
  moreover from g have "i \<in> {0..4}" "k \<in> {0..4}"
    by simp_all
  ultimately show ?L
    by blast
qed

lemma adjacencies_empty_iff:
  "length (adjacencies board) = 0 \<longleftrightarrow>
   \<not> (\<exists>p\<in>set positions. holds board CHR ''M'' p \<and>
        (\<exists>q\<in>set positions. adjacent p q \<and> holds board CHR ''o'' q))"
  by (auto simp add: adjacencies_def filter_empty_conv)

text \<open>
  C3. \<^verbatim>\<open>winMusketeers\<close> returns true exactly when no cell of the grid that holds a
  Musketeer has an orthogonally adjacent cell of the grid that holds an enemy, that is
  when the number of such adjacencies over the whole board is zero.
\<close>

theorem winMusketeers_iff_no_adjacent_enemy:
  "(winMusketeers board \<longleftrightarrow>
      (\<forall>p\<in>set positions. holds board CHR ''M'' p \<longrightarrow>
         \<not> (\<exists>q\<in>set positions. adjacent p q \<and> holds board CHR ''o'' q))) \<and>
   (winMusketeers board \<longleftrightarrow> length (adjacencies board) = 0)"
proof -
  have "winMusketeers board \<longleftrightarrow>
      \<not> (\<exists>p\<in>set positions. holds board CHR ''M'' p \<and>
        (\<exists>q\<in>set positions. adjacent p q \<and> holds board CHR ''o'' q))"
    unfolding threat_iff_adjacent_enemy [symmetric] by (simp add: winMusketeers_iff_no_threat)
  then show ?thesis
    unfolding adjacencies_empty_iff by blast
qed

theorem winMusketeers_iff_no_adjacent_enemy_witness:
  "\<not> winMusketeers board_a1_a2 \<and> (0, 0) \<in> set positions \<and> (0, 1) \<in> set positions \<and>
   holds board_a1_a2 CHR ''M'' (0, 0) \<and> adjacent (0, 0) (0, 1) \<and> holds board_a1_a2 CHR ''o'' (0, 1)"
proof -
  have "(0, 0) \<in> set positions" "(0, 1) \<in> set positions"
    "holds board_a1_a2 CHR ''M'' (0, 0)" "adjacent (0, 0) (0, 1)" "holds board_a1_a2 CHR ''o'' (0, 1)"
    by (simp_all add: set_positions holds_def adjacent_def board_a1_a2_def empty_board_def
        store_def cell_def)
  then show ?thesis
    using winMusketeers_iff_no_adjacent_enemy [of board_a1_a2] by blast
qed

section \<open>Enemies' win\<close>

lemma fold_count:
  "fold (\<lambda>x (c::int). if P x then c + 1 else c) xs c0 = c0 + int (length (filter P xs))"
  by (induction xs arbitrary: c0) simp_all

lemma mCount_row_eq:
  "mCount_row board i = int (length (filter (\<lambda>k. cell board i k = CHR ''M'') [0..4]))"
  by (simp add: mCount_row_def fold_count)

lemma mCount_col_eq:
  "mCount_col board k = int (length (filter (\<lambda>i. cell board i k = CHR ''M'') [0..4]))"
  by (simp add: mCount_col_def fold_count)

lemma same_row_loop_iff: "same_row_loop board rows \<longleftrightarrow> (\<exists>i\<in>set rows. mCount_row board i = 3)"
  by (induction rows) simp_all

lemma same_col_loop_iff: "same_col_loop board cols \<longleftrightarrow> (\<exists>k\<in>set cols. mCount_col board k = 3)"
  by (induction cols) simp_all

lemma winEnemies_iff:
  "winEnemies board \<longleftrightarrow>
     (\<exists>i\<in>{0..4}. mCount_row board i = 3) \<or> (\<exists>k\<in>{0..4}. mCount_col board k = 3)"
  by (simp add: winEnemies_def same_row_loop_iff same_col_loop_iff)

lemma mCount_row_card:
  "mCount_row board i = int (card {p \<in> set (musketeers board). fst p = i})" if "i \<in> {0..4}"
proof -
  have "{p \<in> set (musketeers board). fst p = i} = Pair i ` {k \<in> {0..4}. cell board i k = CHR ''M''}"
    using that by (auto simp add: musketeers_def set_positions holds_def)
  moreover have "card (Pair i ` {k \<in> {0..4}. cell board i k = CHR ''M''}) =
      card {k \<in> {0..4}. cell board i k = CHR ''M''}"
    by (rule card_image) (simp add: inj_on_def)
  moreover have "length (filter (\<lambda>k. cell board i k = CHR ''M'') [0..4]) =
      card {k \<in> {0..4}. cell board i k = CHR ''M''}"
    by (subst distinct_length_filter) (auto intro: arg_cong [where f = card])
  ultimately show ?thesis
    by (simp add: mCount_row_eq)
qed

lemma mCount_col_card:
  "mCount_col board k = int (card {p \<in> set (musketeers board). snd p = k})" if "k \<in> {0..4}"
proof -
  have "{p \<in> set (musketeers board). snd p = k} =
      (\<lambda>i. (i, k)) ` {i \<in> {0..4}. cell board i k = CHR ''M''}"
    using that by (auto simp add: musketeers_def set_positions holds_def)
  moreover have "card ((\<lambda>i. (i, k)) ` {i \<in> {0..4}. cell board i k = CHR ''M''}) =
      card {i \<in> {0..4}. cell board i k = CHR ''M''}"
    by (rule card_image) (simp add: inj_on_def)
  moreover have "length (filter (\<lambda>i. cell board i k = CHR ''M'') [0..4]) =
      card {i \<in> {0..4}. cell board i k = CHR ''M''}"
    by (subst distinct_length_filter) (auto intro: arg_cong [where f = card])
  ultimately show ?thesis
    by (simp add: mCount_col_eq)
qed

lemma card_musketeers: "card (set (musketeers board)) = length (musketeers board)"
  unfolding musketeers_def by (rule distinct_card) (simp add: distinct_positions)

lemma all_in_part_iff:
  assumes "card (set (musketeers board)) = 3"
  shows "card {p \<in> set (musketeers board). f p = (x::int)} = 3 \<longleftrightarrow>
         (\<forall>p\<in>set (musketeers board). f p = x)"
proof
  assume "card {p \<in> set (musketeers board). f p = x} = 3"
  with assms have "{p \<in> set (musketeers board). f p = x} = set (musketeers board)"
    by (intro card_subset_eq) auto
  then show "\<forall>p\<in>set (musketeers board). f p = x"
    by blast
next
  assume "\<forall>p\<in>set (musketeers board). f p = x"
  then have "{p \<in> set (musketeers board). f p = x} = set (musketeers board)"
    by blast
  with assms show "card {p \<in> set (musketeers board). f p = x} = 3"
    by simp
qed

text \<open>
  C4. On a board with exactly three Musketeer cells, \<^verbatim>\<open>winEnemies\<close> returns true
  exactly when the three Musketeers are in one row or in one column.
\<close>

theorem winEnemies_iff_aligned:
  assumes "length (musketeers board) = 3"
  shows "winEnemies board \<longleftrightarrow>
           (\<exists>i. \<forall>p\<in>set (musketeers board). fst p = i) \<or>
           (\<exists>k. \<forall>p\<in>set (musketeers board). snd p = k)"
proof -
  from assms have c: "card (set (musketeers board)) = 3"
    by (simp add: card_musketeers)
  then obtain p0 where p0: "p0 \<in> set (musketeers board)"
    by (cases "musketeers board") auto
  then have g: "fst p0 \<in> {0..4}" "snd p0 \<in> {0..4}"
    by (auto simp add: musketeers_def set_positions)
  have rows: "(\<exists>i\<in>{0..4}. mCount_row board i = 3) \<longleftrightarrow> (\<exists>i. \<forall>p\<in>set (musketeers board). fst p = i)"
  proof
    assume "\<exists>i\<in>{0..4}. mCount_row board i = 3"
    then show "\<exists>i. \<forall>p\<in>set (musketeers board). fst p = i"
      using all_in_part_iff [OF c, of fst] by (auto simp add: mCount_row_card)
  next
    assume "\<exists>i. \<forall>p\<in>set (musketeers board). fst p = i"
    then obtain i where i: "\<forall>p\<in>set (musketeers board). fst p = i" ..
    with p0 g have "i \<in> {0..4}"
      by auto
    with i show "\<exists>i\<in>{0..4}. mCount_row board i = 3"
      using all_in_part_iff [OF c, of fst i] by (auto simp add: mCount_row_card)
  qed
  have cols: "(\<exists>k\<in>{0..4}. mCount_col board k = 3) \<longleftrightarrow> (\<exists>k. \<forall>p\<in>set (musketeers board). snd p = k)"
  proof
    assume "\<exists>k\<in>{0..4}. mCount_col board k = 3"
    then show "\<exists>k. \<forall>p\<in>set (musketeers board). snd p = k"
      using all_in_part_iff [OF c, of snd] by (auto simp add: mCount_col_card)
  next
    assume "\<exists>k. \<forall>p\<in>set (musketeers board). snd p = k"
    then obtain k where k: "\<forall>p\<in>set (musketeers board). snd p = k" ..
    with p0 g have "k \<in> {0..4}"
      by auto
    with k show "\<exists>k\<in>{0..4}. mCount_col board k = 3"
      using all_in_part_iff [OF c, of snd k] by (auto simp add: mCount_col_card)
  qed
  show ?thesis
    by (simp only: winEnemies_iff rows cols)
qed

theorem winEnemies_iff_aligned_witness:
  "musketeers board_aligned = [(0, 0), (0, 1), (0, 2)] \<and> winEnemies board_aligned"
proof -
  have m: "musketeers board_aligned = [(0, 0), (0, 1), (0, 2)]"
    by (simp add: musketeers_def positions_def indices holds_def board_aligned_def
        empty_board_def store_def cell_def)
  then have "length (musketeers board_aligned) = 3"
    by simp
  from winEnemies_iff_aligned [OF this] m show ?thesis
    by simp
qed

text \<open>
  C10. \<^verbatim>\<open>winEnemies\<close> gives the same result on two boards whose grids have their
  Musketeers in the same cells, whatever the other cells hold.
\<close>

theorem winEnemies_depends_on_musketeers_only:
  assumes "\<forall>p\<in>set positions. holds board CHR ''M'' p \<longleftrightarrow> holds board' CHR ''M'' p"
  shows "winEnemies board = winEnemies board'"
proof -
  from assms have "musketeers board = musketeers board'"
    by (auto simp add: musketeers_def intro: filter_cong)
  then have "mCount_row board i = mCount_row board' i" "mCount_col board i = mCount_col board' i"
    if "i \<in> {0..4}" for i
    using that by (simp_all add: mCount_row_card mCount_col_card)
  then show ?thesis
    by (simp add: winEnemies_iff)
qed

theorem winEnemies_depends_on_musketeers_only_witness:
  "cells board_aligned \<noteq> cells board_aligned_enemy \<and>
   winEnemies board_aligned = winEnemies board_aligned_enemy"
proof -
  have "\<forall>p\<in>set positions. holds board_aligned CHR ''M'' p \<longleftrightarrow> holds board_aligned_enemy CHR ''M'' p"
    by (simp add: positions_def indices holds_def board_aligned_enemy_def board_aligned_def
        empty_board_def store_def cell_def)
  from winEnemies_depends_on_musketeers_only [OF this] show ?thesis
    by (simp add: cells_def upto.simps board_aligned_enemy_def board_aligned_def
        empty_board_def store_def)
qed

section \<open>Piece counts\<close>

lemma count_of_offsets: "count_of board v = length (filter (\<lambda>a. board a = v) offsets)"
proof -
  have "filter (\<lambda>a. board a = v) (map (\<lambda>p. N * fst p + snd p) positions) =
        map (\<lambda>p. N * fst p + snd p) (filter (holds board v) positions)"
    by (simp add: filter_map comp_def holds_def [abs_def] cell_def)
  then have "length (filter (\<lambda>a. board a = v) (map (\<lambda>p. N * fst p + snd p) positions)) =
             length (filter (holds board v) positions)"
    by simp
  then show ?thesis
    by (simp only: count_of_def offsets_positions)
qed

lemma length_filter_upd:
  assumes "distinct xs" and "a \<in> set xs"
  shows "length (filter (\<lambda>x. (f(a := w)) x = v) xs) + of_bool (f a = v) =
         length (filter (\<lambda>x. f x = v) xs) + of_bool (w = v)"
  using assms
proof (induction xs)
  case Nil
  then show ?case by simp
next
  case (Cons x xs)
  show ?case
  proof (cases "x = a")
    case True
    with Cons.prems have "a \<notin> set xs"
      by simp
    then have "filter (\<lambda>x. (f(a := w)) x = v) xs = filter (\<lambda>x. f x = v) xs"
      by (intro filter_cong) auto
    with True show ?thesis
      by simp
  next
    case False
    with Cons show ?thesis
      by simp
  qed
qed

lemma count_of_store:
  assumes "in_grid i k"
  shows "count_of (store board i k w) v + of_bool (cell board i k = v) =
         count_of board v + of_bool (w = v)"
  using length_filter_upd [OF distinct_offsets offset_in_grid [OF assms], of board w v]
  by (simp add: count_of_offsets store_def cell_def)

lemma makeMove_counts:
  assumes src: "in_grid row col" and dst: "in_grid row' col'"
    and d: "destination row col direction = Some (row', col')"
    and s: "cell board row col = piece" and t: "cell board row' col' = target"
    and p: "piece = (if mTurn then CHR ''M'' else CHR ''o'')"
  shows "\<exists>board'. makeMove row col direction board mTurn = Some board' \<and>
           (\<forall>v. count_of board' v + of_bool (target = v) =
                count_of board v + of_bool (CHR ''.'' = v))"
proof -
  from d have neq: "(row', col') \<noteq> (row, col)"
    by (auto simp add: destination_def split: if_splits)
  let ?b1 = "store board row col CHR ''.''"
  let ?b2 = "store ?b1 row' col' piece"
  have m: "makeMove row col direction board mTurn = Some ?b2"
    using d p by (simp add: makeMove_def)
  have c1: "count_of ?b1 v + of_bool (piece = v) = count_of board v + of_bool (CHR ''.'' = v)" for v
    using count_of_store [OF src, of board "CHR ''.''" v] s by simp
  have t1: "cell ?b1 row' col' = target"
    using cell_store [OF src dst, of board "CHR ''.''"] neq t by auto
  have c2: "count_of ?b2 v + of_bool (target = v) = count_of ?b1 v + of_bool (piece = v)" for v
    using count_of_store [OF dst, of ?b1 piece v] t1 by simp
  have "count_of ?b2 v + of_bool (target = v) = count_of board v + of_bool (CHR ''.'' = v)" for v
    using c1 [of v] c2 [of v] by simp
  with m show ?thesis
    by simp
qed

text \<open>
  A move that the Musketeers' validator accepts takes one enemy off the grid and keeps
  the number of Musketeers.
\<close>

lemma musketeer_move_counts:
  assumes "fst (isValidMusketeerMove row col direction board)"
  shows "\<exists>board'. makeMove row col direction board True = Some board' \<and>
           count_of board' CHR ''o'' + 1 = count_of board CHR ''o'' \<and>
           count_of board' CHR ''M'' = count_of board CHR ''M''"
proof -
  from assms obtain row' col' where "in_grid row col" "cell board row col = CHR ''M''"
    "destination row col direction = Some (row', col')" "in_grid row' col'"
    "cell board row' col' = CHR ''o''"
    by (auto simp add: isValidMusketeerMove_fst)
  from makeMove_counts [OF this(1,4,3,2,5), of True]
  obtain board' where m: "makeMove row col direction board True = Some board'"
    and c: "\<And>v. count_of board' v + of_bool (CHR ''o'' = v) =
              count_of board v + of_bool (CHR ''.'' = v)"
    by auto
  from c [of "CHR ''o''"] c [of "CHR ''M''"] m show ?thesis
    by simp
qed

text \<open>
  A move that the enemies' validator accepts keeps both numbers, provided that its
  destination is on the grid. The validator does not see to that.
\<close>

lemma enemy_move_counts:
  assumes "fst (isValidEnemyMove row col direction board)"
    and "destination row col direction = Some (row', col')" and "in_grid row' col'"
  shows "\<exists>board'. makeMove row col direction board False = Some board' \<and>
           count_of board' CHR ''o'' = count_of board CHR ''o'' \<and>
           count_of board' CHR ''M'' = count_of board CHR ''M''"
proof -
  from assms(1,2) have "in_grid row col" "cell board row col = CHR ''o''"
    "cell board row' col' = CHR ''.''"
    by (simp_all add: isValidEnemyMove_fst)
  from makeMove_counts [OF this(1) assms(3,2) this(2,3), of False]
  obtain board' where m: "makeMove row col direction board False = Some board'"
    and c: "\<And>v. count_of board' v + of_bool (CHR ''.'' = v) =
              count_of board v + of_bool (CHR ''.'' = v)"
    by auto
  from c [of "CHR ''o''"] c [of "CHR ''M''"] m show ?thesis
    by simp
qed

text \<open>
  C5. The claim: a move accepted by the active side's validator keeps the number of
  Musketeers, and takes one enemy away (Musketeers' move) or keeps the number of enemies
  (enemies' move). The code: on a board with three Musketeers and three enemies, one of
  them at A1, the enemies' move \<open>'u'\<close> from A1 is accepted when the char five places
  before the board is \<open>'.'\<close>, and \<^verbatim>\<open>makeMove\<close> then empties A1 and writes the enemy
  outside the grid: the grid has lost an enemy.
\<close>

theorem enemy_move_off_grid_loses_enemy:
  "count_of board_play CHR ''M'' = 3 \<and> count_of board_play CHR ''o'' = 3 \<and>
   destination 0 0 CHR ''u'' = Some (- 1, 0) \<and> \<not> in_grid (- 1) 0 \<and>
   board_play (- 5) = CHR ''.'' \<and>
   fst (isValidEnemyMove 0 0 CHR ''u'' board_play) \<and>
   map_option (\<lambda>board'. (count_of board' CHR ''o'', count_of board' CHR ''M'', board' (- 5)))
     (makeMove 0 0 CHR ''u'' board_play False) = Some (2, 3, CHR ''o'')"
  by (simp add: count_of_def positions_def indices holds_def isValidEnemyMove_def isValidMove_def
      condition_def destination_def makeMove_def in_grid_def board_play_def empty_board_def
      store_def cell_def)

section \<open>The turn loop\<close>

lemma validated_move_applies:
  assumes "fst (validator musketeersTurn row col direction board)"
  shows "\<exists>board'. makeMove row col direction board musketeersTurn = Some board'"
proof -
  from assms have "destination row col direction \<noteq> None"
    by (auto simp add: validator_def isValidMusketeerMove_fst isValidEnemyMove_fst split: if_splits)
  then show ?thesis
    by (auto simp add: makeMove_def)
qed

lemma play_turn_on_move:
  assumes "playerMove \<noteq> ''0,0=E'' @ [CHR 0x0A]" and "playerMove \<noteq> ''0,0=e'' @ [CHR 0x0A]"
    and "parse_move playerMove = Some (row, col, direction)"
  shows "play_turn board musketeersTurn opened playerMove =
           (case validator musketeersTurn row col direction board of
              (True, ev) \<Rightarrow>
                (case makeMove row col direction board musketeersTurn of
                   None \<Rightarrow> None
                 | Some board' \<Rightarrow> Some (True, board', \<not> musketeersTurn, ev @ [Print Board_displayed]))
            | (False, ev) \<Rightarrow> Some (True, board, musketeersTurn, ev))"
proof (cases musketeersTurn)
  case True
  then have t: "musketeersTurn = True"
    by simp
  show ?thesis
    unfolding t using assms by (simp add: play_turn_def validator_def)
next
  case False
  then have t: "musketeersTurn = False"
    by simp
  show ?thesis
    unfolding t using assms by (simp add: play_turn_def validator_def)
qed

text \<open>A pass of the loop never reaches \<^verbatim>\<open>makeMove\<close> with a direction it does not know.\<close>

lemma play_turn_defined: "play_turn board musketeersTurn opened playerMove \<noteq> None"
proof (cases "playerMove = ''0,0=E'' @ [CHR 0x0A] \<or> playerMove = ''0,0=e'' @ [CHR 0x0A]")
  case True
  then show ?thesis
    by (auto simp add: play_turn_def)
next
  case line: False
  show ?thesis
  proof (cases "parse_move playerMove")
    case None
    with line show ?thesis
      by (simp add: play_turn_def)
  next
    case (Some move)
    obtain row col direction where move: "move = (row, col, direction)"
      by (cases move)
    obtain ok ev where v: "validator musketeersTurn row col direction board = (ok, ev)"
      by (cases "validator musketeersTurn row col direction board")
    show ?thesis
    proof (cases ok)
      case True
      with v validated_move_applies [of musketeersTurn row col direction board]
      obtain board' where "makeMove row col direction board musketeersTurn = Some board'"
        by auto
      with line Some move v True show ?thesis
        by (simp add: play_turn_on_move)
    next
      case False
      with line Some move v show ?thesis
        by (simp add: play_turn_on_move)
    qed
  qed
qed

text \<open>
  C6. In a pass of the turn loop on a line that is not the interrupt command and that
  parses as a move: if the active side's validator rejects the move, the board is the
  same afterwards and the same side is to play; if it accepts, the board is the one
  \<^verbatim>\<open>makeMove\<close> gives and the other side is to play.
\<close>

theorem rejected_turn_keeps_state_accepted_turn_flips:
  assumes "playerMove \<noteq> ''0,0=E'' @ [CHR 0x0A]" and "playerMove \<noteq> ''0,0=e'' @ [CHR 0x0A]"
    and "parse_move playerMove = Some (row, col, direction)"
  shows "(\<not> fst (validator musketeersTurn row col direction board) \<longrightarrow>
            (\<exists>ev. play_turn board musketeersTurn opened playerMove =
                     Some (True, board, musketeersTurn, ev))) \<and>
         (fst (validator musketeersTurn row col direction board) \<longrightarrow>
            (\<exists>board' ev. makeMove row col direction board musketeersTurn = Some board' \<and>
               play_turn board musketeersTurn opened playerMove =
                 Some (True, board', \<not> musketeersTurn, ev)))"
proof -
  obtain ok ev where v: "validator musketeersTurn row col direction board = (ok, ev)"
    by (cases "validator musketeersTurn row col direction board")
  show ?thesis
  proof (cases ok)
    case True
    with v validated_move_applies [of musketeersTurn row col direction board]
    obtain board' where "makeMove row col direction board musketeersTurn = Some board'"
      by auto
    with v True show ?thesis
      by (simp add: play_turn_on_move [OF assms])
  next
    case False
    with v show ?thesis
      by (simp add: play_turn_on_move [OF assms])
  qed
qed

theorem rejected_turn_keeps_state_accepted_turn_flips_witness:
  "line_a1r \<noteq> ''0,0=E'' @ [CHR 0x0A] \<and> line_a1r \<noteq> ''0,0=e'' @ [CHR 0x0A] \<and>
   parse_move line_a1r = Some (0, 0, CHR ''r'') \<and>
   fst (validator True 0 0 CHR ''r'' board_a1_a2) \<and>
   \<not> fst (validator False 0 0 CHR ''r'' board_a1_a2) \<and>
   (\<exists>board' ev. makeMove 0 0 CHR ''r'' board_a1_a2 True = Some board' \<and>
      play_turn board_a1_a2 True True line_a1r = Some (True, board', False, ev)) \<and>
   (\<exists>ev. play_turn board_a1_a2 False True line_a1r = Some (True, board_a1_a2, False, ev))"
proof -
  have l: "line_a1r \<noteq> ''0,0=E'' @ [CHR 0x0A]" "line_a1r \<noteq> ''0,0=e'' @ [CHR 0x0A]"
    by (simp_all add: line_a1r_def)
  have p: "parse_move line_a1r = Some (0, 0, CHR ''r'')"
    by (simp add: line_a1r_def parse_move_def sscanf_tight_def isspace_def tolower_def newline_def)
  have v: "fst (validator True 0 0 CHR ''r'' board_a1_a2)"
    "\<not> fst (validator False 0 0 CHR ''r'' board_a1_a2)"
    by (simp_all add: validator_def isValidMusketeerMove_def isValidEnemyMove_def isValidMove_def
        condition_def board_a1_a2_def empty_board_def store_def cell_def)
  from rejected_turn_keeps_state_accepted_turn_flips [OF l p, of True board_a1_a2 True]
    rejected_turn_keeps_state_accepted_turn_flips [OF l p, of False board_a1_a2 True] l p v
  show ?thesis
    by simp
qed

text \<open>
  C9. The claim: the text \<open>x,9=z\<close> is rejected as malformed by the parsing step, no
  validator is evaluated on it, and the side to play stays. The code: \<^verbatim>\<open>%c\<close> takes any
  char, so the first \<^verbatim>\<open>sscanf\<close> returns 3 and the line is a move with row 23, column 8
  and direction \<open>'z'\<close>; the Musketeers' validator is called and prints its messages,
  "Invalid input format" is not printed.
\<close>

theorem x9z_parses_and_reaches_validator:
  "fst (sscanf_tight line_x9z) = 3 \<and>
   parse_move line_x9z = Some (23, 8, CHR ''z'') \<and>
   isValidMusketeerMove 23 8 CHR ''z'' board_a1_a2 = (False, [Print Out_of_board, Print No_musketeers]) \<and>
   play_turn board_a1_a2 True True line_x9z =
     Some (True, board_a1_a2, True, [Print Out_of_board, Print No_musketeers])"
  by (simp add: line_x9z_def newline_def play_turn_def parse_move_def sscanf_tight_def isspace_def
      tolower_def isValidMusketeerMove_def isValidMove_def)

text \<open>
  C9, amended. The text \<open>x,9=z\<close> passes the parsing step as the move with row 23,
  column 8 and direction \<open>'z'\<close>. The active side's validator rejects it, because the
  source is off the grid, before any cell is read. The board and the side to play stay
  as they are.
\<close>

theorem x9z_rejected_by_validator:
  "parse_move line_x9z = Some (23, 8, CHR ''z'') \<and>
   validator musketeersTurn 23 8 CHR ''z'' board =
     (False, [Print Out_of_board, Print (if musketeersTurn then No_musketeers else No_enemies)]) \<and>
   play_turn board musketeersTurn opened line_x9z =
     Some (True, board, musketeersTurn,
           [Print Out_of_board, Print (if musketeersTurn then No_musketeers else No_enemies)])"
  by (simp add: line_x9z_def newline_def play_turn_def parse_move_def sscanf_tight_def isspace_def
      tolower_def validator_def isValidMusketeerMove_def isValidEnemyMove_def isValidMove_def)

section \<open>Saving and loading\<close>

lemma read_loop_done: "\<not> i < N \<Longrightarrow> read_loop i k board inp = (True, board)"
  by (subst read_loop.simps) simp

lemma read_loop_next_row:
  "i < N \<Longrightarrow> \<not> k < N \<Longrightarrow> read_loop i k board inp = read_loop (i + 1) 0 board inp"
  by (subst read_loop.simps) simp

lemma read_loop_eof: "i < N \<Longrightarrow> k < N \<Longrightarrow> read_loop i k board [] = (False, board)"
  by (subst read_loop.simps) simp

lemma read_loop_symbol:
  "i < N \<Longrightarrow> k < N \<Longrightarrow> symbol ch \<Longrightarrow>
     read_loop i k board (ch # inp) = read_loop i (k + 1) (store board i k ch) inp"
  by (subst read_loop.simps) (auto simp add: symbol_def)

lemma read_loop_blank:
  "i < N \<Longrightarrow> k < N \<Longrightarrow> blank ch \<Longrightarrow> read_loop i k board (ch # inp) = read_loop i k board inp"
  by (subst read_loop.simps) (auto simp add: blank_def)

lemma read_loop_invalid:
  "i < N \<Longrightarrow> k < N \<Longrightarrow> \<not> symbol ch \<Longrightarrow> \<not> blank ch \<Longrightarrow>
     read_loop i k board (ch # inp) = (False, board)"
  by (subst read_loop.simps) (auto simp add: blank_def symbol_def)

lemma symbol_not_blank: "symbol c \<Longrightarrow> \<not> blank c"
  by (auto simp add: symbol_def blank_def)

lemma read_loop_accepts:
  "0 \<le> k \<Longrightarrow> k \<le> N \<Longrightarrow>
     fst (read_loop i k board inp) \<longleftrightarrow> needed i k \<le> length (symbols_read inp)"
proof (induction i k board inp rule: read_loop.induct)
  case (1 i k board inp)
  show ?case
  proof (cases "i < N")
    case False
    then show ?thesis
      by (simp add: read_loop_done needed_def)
  next
    case row: True
    show ?thesis
    proof (cases "k < N")
      case False
      with row "1.prems" have k: "k = N"
        by simp
      have "fst (read_loop (i + 1) 0 board inp) \<longleftrightarrow> needed (i + 1) 0 \<le> length (symbols_read inp)"
        using row False by (intro "1.IH"(1)) simp_all
      moreover have "needed (i + 1) 0 = needed i k"
        using row k by (simp add: needed_def algebra_simps)
      ultimately show ?thesis
        using row False by (simp add: read_loop_next_row)
    next
      case col: True
      show ?thesis
      proof (cases inp)
        case Nil
        with row col "1.prems" show ?thesis
          by (simp add: read_loop_eof needed_def symbols_read_def)
      next
        case (Cons ch inp')
        consider "symbol ch" | "blank ch" | "\<not> symbol ch" "\<not> blank ch"
          by blast
        then show ?thesis
        proof cases
          case 1
          then have v: "\<not> (ch \<noteq> CHR ''o'' \<and> ch \<noteq> CHR ''M'' \<and> ch \<noteq> CHR 0x0A \<and> ch \<noteq> CHR '' '' \<and> ch \<noteq> CHR ''.'')"
            and nb: "ch \<noteq> CHR 0x0A \<and> ch \<noteq> CHR '' ''"
            by (auto simp add: symbol_def)
          have "fst (read_loop i (k + 1) (store board i k ch) inp') \<longleftrightarrow>
                needed i (k + 1) \<le> length (symbols_read inp')"
            using row col Cons v nb "1.prems" by (intro "1.IH"(2)) simp_all
          moreover have "needed i k = Suc (needed i (k + 1))"
            using row col "1.prems" by (simp add: needed_def)
          ultimately show ?thesis
            using row col Cons 1 by (simp add: read_loop_symbol symbols_read_def)
        next
          case 2
          then have v: "\<not> (ch \<noteq> CHR ''o'' \<and> ch \<noteq> CHR ''M'' \<and> ch \<noteq> CHR 0x0A \<and> ch \<noteq> CHR '' '' \<and> ch \<noteq> CHR ''.'')"
            and nb: "\<not> (ch \<noteq> CHR 0x0A \<and> ch \<noteq> CHR '' '')"
            by (auto simp add: blank_def)
          have "fst (read_loop i (k - 1 + 1) board inp') \<longleftrightarrow>
                needed i (k - 1 + 1) \<le> length (symbols_read inp')"
            using row col Cons v nb "1.prems" by (intro "1.IH"(3)) simp_all
          moreover from 2 have "\<not> symbol ch"
            using symbol_not_blank by blast
          ultimately show ?thesis
            using row col Cons 2 by (simp add: read_loop_blank symbols_read_def)
        next
          case 3
          moreover have "0 < needed i k"
            using row col by (simp add: needed_def)
          ultimately show ?thesis
            using row col Cons by (simp add: read_loop_invalid symbols_read_def)
        qed
      qed
    qed
  qed
qed

lemma writeBoard_text:
  "writeBoard board True = (True, concat (map (\<lambda>i.
      [cell board i 0, CHR '' '', cell board i 1, CHR '' '', cell board i 2, CHR '' '',
       cell board i 3, CHR '' '', cell board i 4, CHR 0x0A]) [0, 1, 2, 3, 4]))"
  by (simp add: writeBoard_def write_row_def write_cell_def indices)

lemma read_written:
  assumes "\<And>i k. in_grid i k \<Longrightarrow> symbol (cell board i k)"
  shows "read_loop 0 0 board0 (snd (writeBoard board True)) =
           (True, fold (\<lambda>p b. store b (fst p) (snd p) (cell board (fst p) (snd p))) positions board0)"
  by (simp add: writeBoard_text read_loop_symbol read_loop_blank read_loop_next_row read_loop_done
      assms in_grid_def blank_def positions_def indices)

lemma cells_restored:
  "cells (fold (\<lambda>p b. store b (fst p) (snd p) (cell board (fst p) (snd p))) positions board0) =
   cells board"
  by (simp add: positions_def cells_def store_def cell_def indices upto.simps)

text \<open>\<^verbatim>\<open>makeMove\<close> only ever writes cell symbols.\<close>

lemma store_keeps_symbols:
  assumes "list_all symbol (cells board)" and "symbol v"
  shows "list_all symbol (cells (store board i k v))"
  using assms by (auto simp add: cells_def store_def list_all_iff)

lemma makeMove_keeps_symbols:
  assumes "list_all symbol (cells board)"
    and "makeMove row col direction board mTurn = Some board'"
  shows "list_all symbol (cells board')"
proof -
  from assms(2) obtain newRow newCol where
    "board' = store (store board row col CHR ''.'') newRow newCol (if mTurn then CHR ''M'' else CHR ''o'')"
    by (auto simp add: makeMove_def split: option.splits)
  moreover have "symbol CHR ''.''" "symbol (if mTurn then CHR ''M'' else CHR ''o'')"
    by (simp_all add: symbol_def)
  ultimately show ?thesis
    using assms(1) by (simp add: store_keeps_symbols)
qed

text \<open>
  C7. For a board whose 25 cells each hold \<open>'M'\<close>, \<open>'o'\<close> or \<open>'.'\<close>, \<^verbatim>\<open>writeBoard\<close>
  succeeds, \<^verbatim>\<open>readBoard\<close> accepts the text it wrote, and the board read has the same
  25 cells, whatever the board read into held before.
\<close>

theorem load_of_save_is_identity:
  assumes "\<forall>p\<in>set positions. symbol (cell board (fst p) (snd p))"
  shows "fst (writeBoard board True) \<and>
         fst (readBoard board0 (Some (snd (writeBoard board True)))) \<and>
         cells (snd (readBoard board0 (Some (snd (writeBoard board True))))) = cells board"
proof -
  have "symbol (cell board i k)" if "in_grid i k" for i k
    using assms that by (auto simp add: set_positions in_grid_def)
  then have "readBoard board0 (Some (snd (writeBoard board True))) =
    (True, fold (\<lambda>p b. store b (fst p) (snd p) (cell board (fst p) (snd p))) positions board0)"
    by (simp add: readBoard_def read_written)
  then show ?thesis
    by (simp add: cells_restored writeBoard_def)
qed

theorem load_of_save_is_identity_witness:
  "list_all symbol (cells board_a1_a2) \<and>
   fst (readBoard board_aligned (Some (snd (writeBoard board_a1_a2 True)))) \<and>
   cells (snd (readBoard board_aligned (Some (snd (writeBoard board_a1_a2 True))))) =
     cells board_a1_a2"
proof -
  have "\<forall>p\<in>set positions. symbol (cell board_a1_a2 (fst p) (snd p))"
    by (simp add: positions_def indices symbol_def board_a1_a2_def empty_board_def store_def cell_def)
  moreover have "list_all symbol (cells board_a1_a2)"
    by (simp add: cells_def upto.simps symbol_def board_a1_a2_def empty_board_def store_def)
  ultimately show ?thesis
    using load_of_save_is_identity [of board_a1_a2 board_aligned] by simp
qed

text \<open>
  C8. The claim: \<^verbatim>\<open>readBoard\<close> accepts a grid only if it holds exactly three \<open>'M'\<close>.
  The code: \<^verbatim>\<open>readBoard\<close> never counts a symbol; a text of 25 empty cells is accepted
  and gives a board without a Musketeer.
\<close>

theorem readBoard_accepts_grid_without_musketeers:
  "fst (readBoard board_aligned (Some empty_text)) \<and>
   count_of (snd (readBoard board_aligned (Some empty_text))) CHR ''M'' = 0"
  by (simp add: readBoard_def empty_text_def newline_def read_loop_symbol read_loop_blank
      read_loop_next_row read_loop_done symbol_def blank_def count_of_def positions_def indices
      holds_def store_def cell_def)

text \<open>
  C8, amended. \<^verbatim>\<open>readBoard\<close> accepts a file exactly when the file can be opened and
  25 cell symbols (\<open>'o'\<close>, \<open>'M'\<close> or \<open>'.'\<close>) come before its end and before any char
  that is neither a cell symbol nor a space nor a newline. The number of \<open>'M'\<close> among
  them plays no part.
\<close>

theorem readBoard_accepts_iff_25_symbols:
  "fst (readBoard board file) \<longleftrightarrow>
     (\<exists>chars. file = Some chars \<and> 25 \<le> length (symbols_read chars))"
  by (cases "file") (simp_all add: readBoard_def read_loop_accepts needed_def)

end
